theory Spec2Isabelle
  imports Complex_Main
begin

section \<open>Strings\<close>

text \<open>
  A Python \<open>str\<close> is modelled as a \<open>string\<close>: each \<open>char\<close> stands for one code point
  (those below 256), so \<open>length\<close> counts what Python's \<open>len\<close> and slicing count.
\<close>

definition newline :: char where
  "newline = CHR 0x0A"

section \<open>URL parser: \<open>extract_video_id\<close>\<close>

text \<open>The character class \<open>[0-9A-Za-z_-]\<close> of both patterns.\<close>

definition id_char :: "char \<Rightarrow> bool" where
  "id_char c \<longleftrightarrow>
     c \<in> set ''0123456789ABCDEFGHIJKLMNOPQRSTUVWXYZabcdefghijklmnopqrstuvwxyz_-''"

text \<open>
  The group \<open>([0-9A-Za-z_-]{11})\<close> matched at the head of a string: exactly eleven
  characters of the class, which are the group's text.
\<close>

definition group11 :: "string \<Rightarrow> string option" where
  "group11 s =
     (if 11 \<le> length s \<and> list_all id_char (take 11 s) then Some (take 11 s) else None)"

text \<open>
  Pattern one, \<open>(?:v=|\/)([0-9A-Za-z_-]{11}).*\<close>, matched at the head of a string; the
  result is group 1. The alternation tries \<open>v=\<close> before \<open>/\<close>; the trailing \<open>.*\<close> also
  matches the empty string, so it never makes a match fail.
\<close>

definition pattern1 :: "string \<Rightarrow> string option" where
  "pattern1 s =
     (if take 2 s = ''v='' then group11 (drop 2 s)
      else if take 1 s = ''/'' then group11 (drop 1 s)
      else None)"

text \<open>
  Pattern two, \<open>youtu.be\/([0-9A-Za-z_-]{11})\<close>, matched at the head of a string. The
  unescaped dot matches any one character other than a newline.
\<close>

definition pattern2 :: "string \<Rightarrow> string option" where
  "pattern2 s =
     (if take 5 s = ''youtu'' \<and> 6 \<le> length s \<and> s ! 5 \<noteq> newline \<and> take 3 (drop 6 s) = ''be/''
      then group11 (drop 9 s)
      else None)"

text \<open>
  \<open>re.search\<close>: the match at the leftmost position of the string where the pattern
  matches, \<open>None\<close> when it matches nowhere.
\<close>

fun re_search :: "(string \<Rightarrow> string option) \<Rightarrow> string \<Rightarrow> string option" where
  "re_search p [] = p []"
| "re_search p (c # s) = (case p (c # s) of Some g \<Rightarrow> Some g | None \<Rightarrow> re_search p s)"

definition patterns :: "(string \<Rightarrow> string option) list" where
  "patterns = [pattern1, pattern2]"

text \<open>The loop over the patterns: the first one that matches returns its group 1.\<close>

fun first_match :: "(string \<Rightarrow> string option) list \<Rightarrow> string \<Rightarrow> string option" where
  "first_match [] url = None"
| "first_match (p # ps) url =
     (case re_search p url of Some g \<Rightarrow> Some g | None \<Rightarrow> first_match ps url)"

definition extract_video_id :: "string \<Rightarrow> string option" where
  "extract_video_id url = first_match patterns url"

text \<open>An identifier: eleven characters of the class.\<close>

definition video_id_ok :: "string \<Rightarrow> bool" where
  "video_id_ok v \<longleftrightarrow> length v = 11 \<and> list_all id_char v"

section \<open>Timestamps: \<open>format_timestamp\<close>\<close>

text \<open>
  The exceptions of the program: \<open>OverflowError\<close> from \<open>timedelta\<close>, \<open>OSError\<close> from
  the file system, and \<open>LibraryError\<close> for whatever a call into \<open>requests\<close>, the
  transcript library or the generative-language client raises.
\<close>

datatype error = OverflowError | OSError | LibraryError

text \<open>
  A caption start offset is a finite Python float (or an int); either denotes a real
  number, and \<open>int(seconds)\<close> is computed exactly on that number: it drops the fractional
  part, rounding towards zero.
\<close>

definition py_int :: "real \<Rightarrow> int" where
  "py_int x = (if 0 \<le> x then \<lfloor>x\<rfloor> else \<lceil>x\<rceil>)"

text \<open>
  The standard library's \<open>timedelta\<close>. The constructor normalises a count of seconds
  to days and seconds of the day (floor division, so \<open>0 \<le> seconds < 86400\<close>) and raises
  \<open>OverflowError\<close> when the days exceed 999999999 in magnitude.
\<close>

record timedelta =
  td_days :: int
  td_seconds :: int
  td_microseconds :: int

definition timedelta_seconds :: "int \<Rightarrow> error + timedelta" where
  "timedelta_seconds n =
     (let d = n div 86400; s = n mod 86400
      in if \<bar>d\<bar> > 999999999 then Inl OverflowError
         else Inr \<lparr>td_days = d, td_seconds = s, td_microseconds = 0\<rparr>)"

text \<open>The conversions \<open>%d\<close> and \<open>%0wd\<close> of Python's string formatting.\<close>

definition digit_char :: "nat \<Rightarrow> char" where
  "digit_char d = ''0123456789'' ! d"

fun digits :: "nat \<Rightarrow> string" where
  "digits n = (if n < 10 then [digit_char n] else digits (n div 10) @ [digit_char (n mod 10)])"

declare digits.simps [simp del]

definition fmt_d :: "int \<Rightarrow> string" where
  "fmt_d n = (if n < 0 then ''-'' @ digits (nat (- n)) else digits (nat n))"

definition fmt_0d :: "nat \<Rightarrow> int \<Rightarrow> string" where
  "fmt_0d w n =
     (if n < 0
      then ''-'' @ replicate (w - 1 - length (digits (nat (- n)))) CHR ''0'' @ digits (nat (- n))
      else replicate (w - length (digits (nat n))) CHR ''0'' @ digits (nat n))"

text \<open>
  \<open>str\<close> of a \<open>timedelta\<close>: \<open>H:MM:SS\<close> from the seconds of the day, preceded by
  \<open>D day, \<close> or \<open>D days, \<close> when the days are not zero and followed by the microseconds
  when they are not zero.
\<close>

definition timedelta_str :: "timedelta \<Rightarrow> string" where
  "timedelta_str td =
     (let mm = td_seconds td div 60; ss = td_seconds td mod 60;
          hh = mm div 60; mm = mm mod 60;
          s = fmt_d hh @ '':'' @ fmt_0d 2 mm @ '':'' @ fmt_0d 2 ss;
          s = (if td_days td \<noteq> 0
               then fmt_d (td_days td) @ '' day'' @ (if \<bar>td_days td\<bar> \<noteq> 1 then ''s'' else '''') @ '', '' @ s
               else s);
          s = (if td_microseconds td \<noteq> 0 then s @ ''.'' @ fmt_0d 6 (td_microseconds td) else s)
      in s)"

definition format_timestamp :: "real \<Rightarrow> error + string" where
  "format_timestamp seconds =
     (case timedelta_seconds (py_int seconds) of
        Inl e \<Rightarrow> Inl e
      | Inr td \<Rightarrow> Inr (timedelta_str td))"

text \<open>One caption entry of the transcript: the keys \<open>start\<close> and \<open>text\<close> that the program reads.\<close>

record entry =
  entry_start :: real
  entry_text :: string

text \<open>The line \<open>f"[{timestamp}] {text}"\<close> that both loops over the entries build.\<close>

definition formatted_line :: "entry \<Rightarrow> error + string" where
  "formatted_line e =
     (case format_timestamp (entry_start e) of
        Inl err \<Rightarrow> Inl err
      | Inr timestamp \<Rightarrow> Inr (''['' @ timestamp @ ''] '' @ entry_text e))"

text \<open>
  The shape \<open>H:MM:SS\<close>: one or more decimal digits, a colon, two digits, a colon, two
  digits; and the shape \<open>[H:MM:SS] text\<close> of a line for a given text.
\<close>

definition is_digit :: "char \<Rightarrow> bool" where
  "is_digit c \<longleftrightarrow> c \<in> set ''0123456789''"

definition is_hms :: "string \<Rightarrow> bool" where
  "is_hms s \<longleftrightarrow>
     (let h = takeWhile is_digit s; r = dropWhile is_digit s
      in h \<noteq> [] \<and> length r = 6 \<and> r ! 0 = CHR '':'' \<and> is_digit (r ! 1) \<and> is_digit (r ! 2)
         \<and> r ! 3 = CHR '':'' \<and> is_digit (r ! 4) \<and> is_digit (r ! 5))"

definition is_hms_line :: "string \<Rightarrow> string \<Rightarrow> bool" where
  "is_hms_line txt l \<longleftrightarrow>
     (let ts = takeWhile (\<lambda>c. c \<noteq> CHR '']'') (drop 1 l)
      in is_hms ts \<and> l = ''['' @ ts @ ''] '' @ txt)"

text \<open>
  The rendering \<open>H:MM:SS\<close> of a count of seconds, as the specification words it: the
  hours in decimal, then minutes and seconds of two digits each.
\<close>

definition hms :: "nat \<Rightarrow> string" where
  "hms n = digits (n div 3600) @ '':'' @
           [digit_char (n div 60 mod 60 div 10), digit_char (n div 60 mod 60 mod 10)] @ '':'' @
           [digit_char (n mod 60 div 10), digit_char (n mod 60 mod 10)]"

definition hms_line :: "entry \<Rightarrow> string" where
  "hms_line e = ''['' @ hms (nat \<lfloor>entry_start e\<rfloor>) @ ''] '' @ entry_text e"

section \<open>File names: \<open>sanitize_filename\<close>\<close>

definition invalid_chars :: string where
  "invalid_chars =
     [CHR ''<'', CHR ''>'', CHR '':'', CHR 0x22, CHR ''/'', CHR 0x5C, CHR ''|'', CHR ''?'', CHR ''*'']"

text \<open>\<open>filename.replace(char, '')\<close> for a one-character \<open>char\<close>: every occurrence goes.\<close>

definition str_delete :: "char \<Rightarrow> string \<Rightarrow> string" where
  "str_delete c s = filter (\<lambda>x. x \<noteq> c) s"

text \<open>
  \<open>str.isspace\<close> on one character, and \<open>str.strip()\<close>, which removes the whitespace at
  both ends.
\<close>

definition isspace :: "char \<Rightarrow> bool" where
  "isspace c \<longleftrightarrow>
     c \<in> {CHR 0x09, CHR 0x0A, CHR 0x0B, CHR 0x0C, CHR 0x0D, CHR 0x1C, CHR 0x1D, CHR 0x1E,
          CHR 0x1F, CHR 0x20, CHR 0x85, CHR 0xA0}"

definition str_strip :: "string \<Rightarrow> string" where
  "str_strip s = rev (dropWhile isspace (rev (dropWhile isspace s)))"

definition sanitize_filename :: "string \<Rightarrow> string" where
  "sanitize_filename filename =
     take 200 (str_strip (foldl (\<lambda>filename char. str_delete char filename) filename invalid_chars))"

section \<open>The world of a run\<close>

text \<open>
  What a run touches outside the program: the directories and files of the file system,
  and, in order, the calls it makes to its collaborators and the file-system operations
  that change something. Console output is not modelled.
\<close>

datatype event =
    Title_lookup string
  | Transcript_lookup string
  | Cleaning_call string
  | Makedirs string
  | Open_write string

record world =
  dirs :: "string set"
  files :: "string \<rightharpoonup> string"
  trace :: "event list"

text \<open>
  What the collaborators answer. \<open>requests_get\<close> is the HTTP GET of the title lookup:
  it raises, or returns a status code and what \<open>response.json()['title']\<close> would give.
  \<open>api_get_transcript\<close> is \<open>YouTubeTranscriptApi.get_transcript\<close>. \<open>generate_content\<close> is
  the whole \<open>try\<close> block of the cleaning call for a given prompt: it raises, or returns
  \<open>response.text\<close>, which may be \<open>None\<close>. \<open>makedirs_ok\<close> and \<open>open_ok\<close> say whether the file
  system lets a directory be created and a file be opened for writing.
\<close>

record http_response =
  status_code :: nat
  json_title :: "error + string"

record env =
  requests_get :: "string \<Rightarrow> error + http_response"
  api_get_transcript :: "string \<Rightarrow> error + entry list"
  generate_content :: "string \<Rightarrow> error + string option"
  makedirs_ok :: "string \<Rightarrow> bool"
  open_ok :: "string \<Rightarrow> bool"

definition log_event :: "event \<Rightarrow> world \<Rightarrow> world" where
  "log_event ev w = w\<lparr>trace := trace w @ [ev]\<rparr>"

section \<open>Fetching: \<open>get_video_title\<close> and \<open>get_transcript\<close>\<close>

definition oembed_url :: "string \<Rightarrow> string" where
  "oembed_url video_id =
     ''https://www.youtube.com/oembed?url=http://www.youtube.com/watch?v='' @ video_id
       @ ''&format=json''"

definition get_video_title :: "env \<Rightarrow> string \<Rightarrow> world \<Rightarrow> string option \<times> world" where
  "get_video_title env video_id w =
     (let w' = log_event (Title_lookup (oembed_url video_id)) w
      in case requests_get env (oembed_url video_id) of
           Inl e \<Rightarrow> (None, w')
         | Inr response \<Rightarrow>
             if status_code response = 200
             then (case json_title response of Inl e \<Rightarrow> (None, w') | Inr title \<Rightarrow> (Some title, w'))
             else (None, w'))"

definition get_transcript :: "env \<Rightarrow> string \<Rightarrow> world \<Rightarrow> entry list option \<times> world" where
  "get_transcript env video_id w =
     (let w' = log_event (Transcript_lookup video_id) w
      in case api_get_transcript env video_id of
           Inl e \<Rightarrow> (None, w')
         | Inr transcript \<Rightarrow> (Some transcript, w'))"

section \<open>Saving: \<open>save_raw_transcript\<close> and \<open>save_cleaned_transcript\<close>\<close>

text \<open>\<open>os.path.exists\<close>, and \<open>os.path.join\<close> of two components with \<open>/\<close> as separator.\<close>

definition path_exists :: "world \<Rightarrow> string \<Rightarrow> bool" where
  "path_exists w p \<longleftrightarrow> p \<in> dirs w \<or> p \<in> dom (files w)"

definition path_join :: "string \<Rightarrow> string \<Rightarrow> string" where
  "path_join a b =
     (if take 1 b = ''/'' then b
      else if a = [] \<or> last a = CHR ''/'' then a @ b
      else a @ ''/'' @ b)"

text \<open>
  The first statement of both saving functions: create \<open>transcripts\<close> unless something
  of that name exists. It stands outside the \<open>try\<close>, so its failure leaves the function.
\<close>

definition ensure_transcripts_dir :: "env \<Rightarrow> world \<Rightarrow> error + world" where
  "ensure_transcripts_dir env w =
     (if \<not> path_exists w ''transcripts''
      then (if makedirs_ok env ''transcripts''
            then Inr (log_event (Makedirs ''transcripts'')
                        (w\<lparr>dirs := insert ''transcripts'' (dirs w)\<rparr>))
            else Inl OSError)
      else Inr w)"

text \<open>
  \<open>sanitize_filename(video_title) if video_title else video_id\<close> and
  \<open>video_title or 'Unknown Title'\<close>: an empty title counts as no title.
\<close>

definition base_filename :: "string \<Rightarrow> string option \<Rightarrow> string" where
  "base_filename video_id video_title =
     (case video_title of
        None \<Rightarrow> video_id
      | Some title \<Rightarrow> if title \<noteq> [] then sanitize_filename title else video_id)"

definition title_or_unknown :: "string option \<Rightarrow> string" where
  "title_or_unknown video_title =
     (case video_title of
        None \<Rightarrow> ''Unknown Title''
      | Some title \<Rightarrow> if title \<noteq> [] then title else ''Unknown Title'')"

definition raw_filepath :: "string \<Rightarrow> string option \<Rightarrow> string" where
  "raw_filepath video_id video_title =
     path_join ''transcripts'' (base_filename video_id video_title @ ''_raw.md'')"

definition cleaned_filepath :: "string \<Rightarrow> string option \<Rightarrow> string" where
  "cleaned_filepath video_id video_title =
     path_join ''transcripts'' (base_filename video_id video_title @ ''.md'')"

definition raw_header :: "string option \<Rightarrow> string" where
  "raw_header video_title =
     ''# '' @ title_or_unknown video_title @ '' (Raw Transcript)'' @ [newline, newline]
       @ ''---'' @ [newline, newline]"

definition cleaned_header :: "string option \<Rightarrow> string" where
  "cleaned_header video_title =
     ''# '' @ title_or_unknown video_title @ '' (Cleaned Transcript)'' @ [newline, newline]
       @ ''---'' @ [newline, newline]"

text \<open>
  The loop that writes one line per entry to the open file \<open>f\<close> (its content so far).
  When \<open>format_timestamp\<close> raises, the lines written before stay in the file.
\<close>

fun write_entries :: "entry list \<Rightarrow> string \<Rightarrow> string \<times> error option" where
  "write_entries [] f = (f, None)"
| "write_entries (e # es) f =
     (case formatted_line e of
        Inl err \<Rightarrow> (f, Some err)
      | Inr l \<Rightarrow> write_entries es (f @ l @ [newline]))"

definition save_raw_transcript ::
  "env \<Rightarrow> string \<Rightarrow> string option \<Rightarrow> entry list \<Rightarrow> world \<Rightarrow> error + (string option \<times> world)" where
  "save_raw_transcript env video_id video_title transcript w =
     (case ensure_transcripts_dir env w of
        Inl e \<Rightarrow> Inl e
      | Inr w1 \<Rightarrow>
          let filepath = raw_filepath video_id video_title;
              w2 = log_event (Open_write filepath) w1
          in if \<not> open_ok env filepath then Inr (None, w2)
             else (case write_entries transcript (raw_header video_title) of
                     (content, Some err) \<Rightarrow> Inr (None, w2\<lparr>files := (files w2)(filepath \<mapsto> content)\<rparr>)
                   | (content, None) \<Rightarrow>
                       Inr (Some filepath, w2\<lparr>files := (files w2)(filepath \<mapsto> content)\<rparr>)))"

definition save_cleaned_transcript ::
  "env \<Rightarrow> string \<Rightarrow> string option \<Rightarrow> string \<Rightarrow> world \<Rightarrow> error + (string option \<times> world)" where
  "save_cleaned_transcript env video_id video_title cleaned_text w =
     (case ensure_transcripts_dir env w of
        Inl e \<Rightarrow> Inl e
      | Inr w1 \<Rightarrow>
          let filepath = cleaned_filepath video_id video_title;
              w2 = log_event (Open_write filepath) w1
          in if \<not> open_ok env filepath then Inr (None, w2)
             else Inr (Some filepath,
                       w2\<lparr>files := (files w2)(filepath \<mapsto> cleaned_header video_title @ cleaned_text)\<rparr>))"

section \<open>Cleaning: \<open>clean_transcript_with_gemini\<close>\<close>

definition prompt_intro :: string where
  "prompt_intro =
     ''The following is a raw YouTube transcript. ''
     @ ''Please reformat the transcript into clear paragraphs. ''
     @ ''Each paragraph should begin with the timestamp of the first line in that paragraph, ''
     @ ''and the formatting should be cleaned up (remove extraneous line breaks, duplicate timestamps, etc.).''
     @ [newline, newline] @ ''Transcript:'' @ [newline]"

definition clean_transcript_with_gemini :: "env \<Rightarrow> string \<Rightarrow> world \<Rightarrow> string option \<times> world" where
  "clean_transcript_with_gemini env raw_transcript_text w =
     (let w' = log_event (Cleaning_call raw_transcript_text) w
      in case generate_content env (prompt_intro @ raw_transcript_text) of
           Inl e \<Rightarrow> (None, w')
         | Inr response_text \<Rightarrow> (response_text, w'))"

section \<open>The run: \<open>main\<close>\<close>

text \<open>The loop of \<open>main\<close> that collects the lines, and \<open>"\n".join\<close>.\<close>

fun format_entries :: "entry list \<Rightarrow> error + string list" where
  "format_entries [] = Inr []"
| "format_entries (e # es) =
     (case formatted_line e of
        Inl err \<Rightarrow> Inl err
      | Inr l \<Rightarrow> (case format_entries es of Inl err \<Rightarrow> Inl err | Inr ls \<Rightarrow> Inr (l # ls)))"

fun str_join :: "string \<Rightarrow> string list \<Rightarrow> string" where
  "str_join sep [] = []"
| "str_join sep [x] = x"
| "str_join sep (x # y # ys) = x @ sep @ str_join sep (y # ys)"

text \<open>
  \<open>main\<close> on the line read from standard input. \<open>Inl\<close> is an exception that leaves
  \<open>main\<close>; \<open>Inr\<close> is the world when \<open>main\<close> returns. The tests \<open>if video_id\<close>,
  \<open>if transcript\<close> and \<open>if cleaned_transcript\<close> take \<open>None\<close> and the empty value alike
  as false.
\<close>

definition main :: "env \<Rightarrow> string \<Rightarrow> world \<Rightarrow> error + world" where
  "main env url w =
     (case extract_video_id url of
        None \<Rightarrow> Inr w
      | Some video_id \<Rightarrow>
          if video_id = [] then Inr w
          else
            (case get_video_title env video_id w of (video_title, w1) \<Rightarrow>
              (case get_transcript env video_id w1 of
                 (None, w2) \<Rightarrow> Inr w2
               | (Some transcript, w2) \<Rightarrow>
                   if transcript = [] then Inr w2
                   else
                     (case format_entries transcript of
                        Inl e \<Rightarrow> Inl e
                      | Inr raw_transcript_lines \<Rightarrow>
                          (case save_raw_transcript env video_id video_title transcript w2 of
                             Inl e \<Rightarrow> Inl e
                           | Inr (saved, w3) \<Rightarrow>
                               (case clean_transcript_with_gemini env
                                       (str_join [newline] raw_transcript_lines) w3 of
                                  (None, w4) \<Rightarrow> Inr w4
                                | (Some cleaned_transcript, w4) \<Rightarrow>
                                    (if cleaned_transcript = [] then Inr w4
                                     else
                                       (case save_cleaned_transcript env video_id video_title
                                               cleaned_transcript w4 of
                                          Inl e \<Rightarrow> Inl e
                                        | Inr (saved', w5) \<Rightarrow> Inr w5))))))))"

section \<open>Auxiliary notions for the properties of a run\<close>

text \<open>
  The world after the directory check of a saving function, when the check does not
  fail: unchanged if \<open>transcripts\<close> exists, else with the directory created.
\<close>

definition with_transcripts_dir :: "world \<Rightarrow> world" where
  "with_transcripts_dir w =
     (if path_exists w ''transcripts'' then w
      else log_event (Makedirs ''transcripts'') (w\<lparr>dirs := insert ''transcripts'' (dirs w)\<rparr>))"

text \<open>The events of a run up to and including the cleaning call.\<close>
definition run_events :: "world \<Rightarrow> string \<Rightarrow> string option \<Rightarrow> string \<Rightarrow> event list" where
  "run_events w video_id video_title blob =
     [Title_lookup (oembed_url video_id), Transcript_lookup video_id]
     @ (if path_exists w ''transcripts'' then [] else [Makedirs ''transcripts''])
     @ [Open_write (raw_filepath video_id video_title), Cleaning_call blob]"

text \<open>A sample environment and world, on which the properties below are exercised.\<close>

definition sample_transcript :: "entry list" where
  "sample_transcript =
     [\<lparr>entry_start = 0, entry_text = ''Hello''\<rparr>, \<lparr>entry_start = 61, entry_text = ''world''\<rparr>]"

definition sample_env :: "(string \<Rightarrow> error + http_response) \<Rightarrow> (string \<Rightarrow> error + entry list) \<Rightarrow> env" where
  "sample_env title_answer transcript_answer =
     \<lparr>requests_get = title_answer,
      api_get_transcript = transcript_answer,
      generate_content = (\<lambda>prompt. Inl LibraryError),
      makedirs_ok = (\<lambda>path. True),
      open_ok = (\<lambda>path. True)\<rparr>"

definition empty_world :: world where
  "empty_world = \<lparr>dirs = {}, files = Map.empty, trace = []\<rparr>"

section \<open>Properties of the URL parser\<close>

lemma group11_ok: "group11 s = Some g \<Longrightarrow> video_id_ok g"
  by (auto simp: group11_def video_id_ok_def split: if_splits)

lemma pattern1_ok: "pattern1 s = Some g \<Longrightarrow> video_id_ok g"
  by (auto simp: pattern1_def split: if_splits dest: group11_ok)

lemma pattern2_ok: "pattern2 s = Some g \<Longrightarrow> video_id_ok g"
  by (auto simp: pattern2_def split: if_splits dest: group11_ok)

lemma re_search_ok:
  "(\<And>s g. p s = Some g \<Longrightarrow> P g) \<Longrightarrow> re_search p s = Some g \<Longrightarrow> P g"
  by (induction s) (auto split: option.splits)

lemma extract_video_id_ok: "extract_video_id url = Some v \<Longrightarrow> video_id_ok v"
proof (cases "re_search pattern1 url")
  case (Some g)
  assume "extract_video_id url = Some v"
  with Some have "g = v" by (simp add: extract_video_id_def patterns_def)
  with Some show ?thesis using re_search_ok [of pattern1 video_id_ok url v] pattern1_ok by blast
next
  case None
  assume "extract_video_id url = Some v"
  with None have "re_search pattern2 url = Some v"
    by (simp add: extract_video_id_def patterns_def split: option.splits)
  then show ?thesis using re_search_ok [of pattern2 video_id_ok url v] pattern2_ok by blast
qed

text \<open>
  A failed attempt at pattern one stays failed when the string is continued with a
  slash: the slash is outside the class, so it cannot complete the eleven characters.
\<close>

lemma not_id_slash: "\<not> id_char CHR ''/''"
  by (simp add: id_char_def)

lemma group11_blocked:
  "group11 s = None \<Longrightarrow> \<not> id_char x \<Longrightarrow> group11 (s @ x # r) = None"
  by (auto simp: group11_def list_all_iff take_Cons' split: if_splits dest: in_set_takeD)

lemma group11_blocked_Cons:
  "group11 (b # u) = None \<Longrightarrow> \<not> id_char x \<Longrightarrow> group11 (b # u @ x # r) = None"
  using group11_blocked [of "b # u" x r] by simp

lemma pattern1_blocked:
  assumes n: "pattern1 s = None" and ne: "s \<noteq> []"
  shows "pattern1 (s @ CHR ''/'' # r) = None"
proof (cases s)
  case Nil
  with ne show ?thesis by simp
next
  case outer: (Cons a t)
  show ?thesis
  proof (cases t)
    case Nil
    with outer n show ?thesis
      by (auto simp: pattern1_def group11_def not_id_slash split: if_splits)
  next
    case (Cons b u)
    with outer n show ?thesis
      by (auto simp: pattern1_def group11_blocked group11_blocked_Cons not_id_slash
               split: if_splits)
  qed
qed

lemma re_search1_prefix:
  "re_search pattern1 pre = None \<Longrightarrow>
   re_search pattern1 (pre @ CHR ''/'' # r) = re_search pattern1 (CHR ''/'' # r)"
proof (induction pre)
  case Nil
  then show ?case by simp
next
  case (Cons c pre)
  from Cons.prems have 1: "pattern1 (c # pre) = None" and 2: "re_search pattern1 pre = None"
    by (auto split: option.splits)
  from 1 have "pattern1 ((c # pre) @ CHR ''/'' # r) = None"
    by (rule pattern1_blocked) simp
  with Cons.IH [OF 2] show ?case by simp
qed

lemma extract_None_search1: "extract_video_id pre = None \<Longrightarrow> re_search pattern1 pre = None"
  by (simp add: extract_video_id_def patterns_def split: option.splits)

lemma extract_of_search1: "re_search pattern1 url = Some v \<Longrightarrow> extract_video_id url = Some v"
  by (simp add: extract_video_id_def patterns_def)

lemma search1_watch:
  "video_id_ok v \<Longrightarrow> re_search pattern1 (''/watch?v='' @ v) = Some v"
  by (simp add: pattern1_def group11_def id_char_def video_id_ok_def)

lemma search1_youtu_be:
  "video_id_ok v \<Longrightarrow> re_search pattern1 (''/youtu.be/'' @ v) = Some v"
  by (simp add: pattern1_def group11_def id_char_def video_id_ok_def)

lemmas url_parser_defs =
  extract_video_id_def patterns_def pattern1_def pattern2_def group11_def id_char_def newline_def

text \<open>
  Claim C1, as stated: every URL \<open>.../watch?v=X\<close> or \<open>.../youtu.be/X\<close> with an
  eleven-character identifier \<open>X\<close> yields \<open>X\<close>. It fails when the part before holds an
  earlier slash or \<open>v=\<close> followed by eleven characters of the class: the leftmost match
  of pattern one wins, here inside the host name.
\<close>

theorem extract_video_id_earlier_match_counterexample:
  "extract_video_id ''https://youtube-nocookie.com/watch?v=dQw4w9WgXcQ'' = Some ''youtube-noc''
   \<and> extract_video_id ''https://youtube-nocookie.com/watch?v=dQw4w9WgXcQ'' \<noteq> Some ''dQw4w9WgXcQ''"
  by (simp add: url_parser_defs)

text \<open>
  Claim C1, amended: when the part of the URL before \<open>/watch?v=\<close> or \<open>/youtu.be/\<close> holds
  no identifier in a recognised position itself (the parser finds nothing in it), the
  parser returns exactly the eleven-character identifier that follows; it is the first
  group of pattern one, the first pattern of the list.
\<close>

theorem extract_video_id_watch_or_short:
  assumes "length v = 11" and "\<forall>c\<in>set v. id_char c"
    and "extract_video_id pre = None"
    and "form = ''/watch?v='' \<or> form = ''/youtu.be/''"
  shows "extract_video_id (pre @ form @ v) = Some v \<and> re_search pattern1 (pre @ form @ v) = Some v"
proof -
  from assms(1,2) have ok: "video_id_ok v" by (simp add: video_id_ok_def list_all_iff)
  from assms(3) have n: "re_search pattern1 pre = None" by (rule extract_None_search1)
  have "re_search pattern1 (pre @ form @ v) = Some v"
  proof (cases "form = ''/watch?v=''")
    case True
    then show ?thesis
      using re_search1_prefix [OF n, of "''watch?v='' @ v"] search1_watch [OF ok] by simp
  next
    case False
    with assms(4) have "form = ''/youtu.be/''" by simp
    then show ?thesis
      using re_search1_prefix [OF n, of "''youtu.be/'' @ v"] search1_youtu_be [OF ok] by simp
  qed
  then show ?thesis by (simp add: extract_of_search1)
qed

theorem extract_video_id_watch_or_short_witness:
  "extract_video_id ''https://www.youtube.com'' = None
   \<and> extract_video_id ''https://www.youtube.com/watch?v=dQw4w9WgXcQ'' = Some ''dQw4w9WgXcQ''"
proof -
  have none: "extract_video_id ''https://www.youtube.com'' = None"
    by (simp add: url_parser_defs)
  have len: "length ''dQw4w9WgXcQ'' = 11" by simp
  have cls: "\<forall>c\<in>set ''dQw4w9WgXcQ''. id_char c" by (simp add: id_char_def)
  have form: "''/watch?v='' = ''/watch?v='' \<or> ''/watch?v='' = ''/youtu.be/''" by simp
  from extract_video_id_watch_or_short [OF len cls none form] none
  show ?thesis by simp
qed

text \<open>
  Claim C2: on every input string the parser returns (it is a total function, with no
  raising branch) either no match or an identifier, and every identifier returned has
  eleven characters, all of the class \<open>[0-9A-Za-z_-]\<close>.
\<close>

theorem extract_video_id_result_valid:
  "extract_video_id url = None
   \<or> (\<exists>v. extract_video_id url = Some v \<and> length v = 11 \<and> (\<forall>c\<in>set v. id_char c))"
proof (cases "extract_video_id url")
  case None
  then show ?thesis by simp
next
  case (Some v)
  then have "video_id_ok v" by (rule extract_video_id_ok)
  with Some show ?thesis by (simp add: video_id_ok_def list_all_iff)
qed

theorem extract_video_id_result_valid_witness:
  "extract_video_id ''https://youtu.be/dQw4w9WgXcQ?t=42'' = Some ''dQw4w9WgXcQ''
   \<and> length ''dQw4w9WgXcQ'' = 11 \<and> list_all id_char ''dQw4w9WgXcQ''"
proof -
  have e: "extract_video_id ''https://youtu.be/dQw4w9WgXcQ?t=42'' = Some ''dQw4w9WgXcQ''"
    by (simp add: url_parser_defs)
  with extract_video_id_result_valid [of "''https://youtu.be/dQw4w9WgXcQ?t=42''"]
  show ?thesis by (simp add: list_all_iff)
qed

section \<open>Properties of the timestamps\<close>

lemma digit_char_is_digit: "d < 10 \<Longrightarrow> is_digit (digit_char d)"
proof -
  assume "d < 10"
  then have "d \<in> {0, 1, 2, 3, 4, 5, 6, 7, 8, 9}" by auto
  then show ?thesis by (auto simp: digit_char_def is_digit_def)
qed

lemma digits_nonempty: "digits n \<noteq> []"
  by (subst digits.simps) simp

lemma digits_are_digits: "c \<in> set (digits n) \<Longrightarrow> is_digit c"
proof (induction n arbitrary: c rule: digits.induct)
  case (1 n)
  show ?case
  proof (cases "n < 10")
    case True
    with "1.prems" show ?thesis
      by (subst (asm) digits.simps) (simp add: digit_char_is_digit)
  next
    case False
    with "1.prems" have "c \<in> set (digits (n div 10)) \<or> c = digit_char (n mod 10)"
      by (subst (asm) digits.simps) auto
    with False "1.IH" show ?thesis
      by (auto simp: digit_char_is_digit)
  qed
qed

text \<open>\<open>%02d\<close> of a number below 100 is its two decimal digits.\<close>

lemma fmt_0d_two:
  assumes "0 \<le> m" and "m < 100"
  shows "fmt_0d 2 m = [digit_char (nat m div 10), digit_char (nat m mod 10)]"
proof (cases "m < 10")
  case True
  with assms have "nat m div 10 = 0" "nat m mod 10 = nat m" "nat m < 10" by auto
  with assms show ?thesis
    by (simp add: fmt_0d_def digits.simps [of "nat m"] digit_char_def)
next
  case False
  with assms have a: "\<not> nat m < 10" and b: "nat m div 10 < 10" by auto
  from a have "digits (nat m) = digits (nat m div 10) @ [digit_char (nat m mod 10)]"
    by (subst digits.simps) simp
  moreover from b have "digits (nat m div 10) = [digit_char (nat m div 10)]"
    by (subst digits.simps) simp
  ultimately show ?thesis using assms by (simp add: fmt_0d_def)
qed

lemma not_digit_colon: "\<not> is_digit CHR '':''"
  by (simp add: is_digit_def)

lemma not_digit_bracket: "\<not> is_digit CHR '']''"
  by (simp add: is_digit_def)

lemma is_hms_parts:
  assumes "h \<noteq> []" and "\<forall>c\<in>set h. is_digit c"
    and "is_digit m1" "is_digit m2" "is_digit s1" "is_digit s2"
  shows "is_hms (h @ '':'' @ [m1, m2] @ '':'' @ [s1, s2])"
proof -
  let ?r = "'':'' @ [m1, m2] @ '':'' @ [s1, s2]"
  from assms(2) have "takeWhile is_digit (h @ ?r) = h" "dropWhile is_digit (h @ ?r) = ?r"
    by (simp_all add: not_digit_colon)
  with assms show ?thesis
    by (simp add: is_hms_def Let_def not_digit_colon)
qed

lemma is_hms_hms: "is_hms (hms n)"
  unfolding hms_def
  by (rule is_hms_parts) (auto simp: digits_nonempty digits_are_digits digit_char_is_digit)

lemma hms_no_bracket: "c \<in> set (hms n) \<Longrightarrow> c \<noteq> CHR '']''"
proof -
  assume "c \<in> set (hms n)"
  then have "is_digit c \<or> c = CHR '':''"
    by (auto simp: hms_def digits_are_digits digit_char_is_digit)
  then show ?thesis using not_digit_bracket by auto
qed

lemma is_hms_line_hms_line: "is_hms_line (entry_text e) (hms_line e)"
proof -
  have "takeWhile (\<lambda>c. c \<noteq> CHR '']'') (hms n @ ''] '' @ t) = hms n" for n t
    using hms_no_bracket by simp
  then show ?thesis
    by (simp add: is_hms_line_def hms_line_def is_hms_hms)
qed

text \<open>Below one day the days are zero and \<open>str\<close> of the \<open>timedelta\<close> is \<open>H:MM:SS\<close>.\<close>

lemma timedelta_seconds_day:
  "0 \<le> n \<Longrightarrow> n < 86400 \<Longrightarrow>
   timedelta_seconds n = Inr \<lparr>td_days = 0, td_seconds = n, td_microseconds = 0\<rparr>"
  by (simp add: timedelta_seconds_def)

lemma timedelta_str_day:
  assumes "0 \<le> n" and "n < 86400"
  shows "timedelta_str \<lparr>td_days = 0, td_seconds = n, td_microseconds = 0\<rparr> = hms (nat n)"
proof -
  have h: "0 \<le> n div 60 div 60" using assms by simp
  have m: "0 \<le> n div 60 mod 60" "n div 60 mod 60 < 100" using assms by simp_all
  have s: "0 \<le> n mod 60" "n mod 60 < 100" using assms by simp_all
  have e1: "nat (n div 60 div 60) = nat n div 3600"
    using assms by (simp add: nat_div_distrib div_mult2_eq)
  have e2: "nat (n div 60 mod 60) = nat n div 60 mod 60"
    using assms by (simp add: nat_div_distrib nat_mod_distrib)
  have e3: "nat (n mod 60) = nat n mod 60"
    using assms by (simp add: nat_mod_distrib)
  show ?thesis
    using h by (simp add: timedelta_str_def fmt_0d_two [OF m] fmt_0d_two [OF s] fmt_d_def
                          hms_def e1 e2 e3)
qed

lemma format_timestamp_day:
  assumes "0 \<le> x" and "x < 86400"
  shows "format_timestamp x = Inr (hms (nat \<lfloor>x\<rfloor>))"
proof -
  from assms have "0 \<le> \<lfloor>x\<rfloor>" "\<lfloor>x\<rfloor> < 86400" by (simp_all add: floor_less_iff)
  then show ?thesis using assms(1)
    by (simp add: format_timestamp_def py_int_def timedelta_seconds_day timedelta_str_day)
qed

lemma formatted_line_day:
  "0 \<le> entry_start e \<Longrightarrow> entry_start e < 86400 \<Longrightarrow> formatted_line e = Inr (hms_line e)"
  by (simp add: formatted_line_def format_timestamp_day hms_line_def)

lemma write_entries_day:
  "\<forall>e\<in>set es. 0 \<le> entry_start e \<and> entry_start e < 86400 \<Longrightarrow>
   write_entries es f = (f @ concat (map (\<lambda>e. hms_line e @ [newline]) es), None)"
  by (induction es arbitrary: f) (simp_all add: formatted_line_day)

lemmas timestamp_defs =
  format_timestamp_def py_int_def timedelta_seconds_def timedelta_str_def fmt_d_def fmt_0d_def
  digits.simps digit_char_def

text \<open>
  Claim C3, as stated: every entry with a non-negative start offset gives a line
  \<open>[H:MM:SS] text\<close>. It fails from one day on, where \<open>str\<close> of a \<open>timedelta\<close> puts the
  days in front.
\<close>

theorem formatted_line_one_day_counterexample:
  "formatted_line \<lparr>entry_start = 86400, entry_text = ''Hello''\<rparr> = Inr ''[1 day, 0:00:00] Hello''
   \<and> \<not> is_hms_line ''Hello'' ''[1 day, 0:00:00] Hello''"
  by (simp add: formatted_line_def timestamp_defs is_hms_line_def is_hms_def is_digit_def)

text \<open>
  Claim C3, amended: for entries whose start offset is non-negative and below one day
  (86400 seconds), the line formatted from an entry is \<open>[H:MM:SS] text\<close>, with the hours,
  minutes and seconds of the offset truncated to whole seconds, followed by a space and
  the entry's text; and the lines that \<open>save_raw_transcript\<close> writes after the header
  are exactly these lines, each followed by a newline.
\<close>

theorem formatted_line_hms:
  assumes "\<forall>e\<in>set es. 0 \<le> entry_start e \<and> entry_start e < 86400"
  shows "(\<forall>e\<in>set es. formatted_line e = Inr (hms_line e)
                      \<and> is_hms_line (entry_text e) (hms_line e))
         \<and> write_entries es f = (f @ concat (map (\<lambda>e. hms_line e @ [newline]) es), None)"
  using assms by (simp add: formatted_line_day is_hms_line_hms_line write_entries_day)

theorem formatted_line_hms_witness:
  "formatted_line \<lparr>entry_start = 3725.5, entry_text = ''Hello''\<rparr> = Inr ''[1:02:05] Hello''
   \<and> is_hms_line ''Hello'' ''[1:02:05] Hello''
   \<and> write_entries [\<lparr>entry_start = 3725.5, entry_text = ''Hello''\<rparr>] ''---''
       = (''---[1:02:05] Hello'' @ [newline], None)"
proof -
  let ?e = "\<lparr>entry_start = 3725.5, entry_text = ''Hello''\<rparr>"
  have range: "\<forall>e\<in>set [?e]. 0 \<le> entry_start e \<and> entry_start e < 86400" by simp
  have line: "hms_line ?e = ''[1:02:05] Hello''"
    by (simp add: hms_line_def hms_def digits.simps digit_char_def)
  from formatted_line_hms [OF range, of "''---''"] line show ?thesis by simp
qed

text \<open>Consecutive seconds are rendered differently: their last digits differ.\<close>

lemma digit_char_inj: "a < 10 \<Longrightarrow> b < 10 \<Longrightarrow> digit_char a = digit_char b \<Longrightarrow> a = b"
proof -
  assume "a < 10" "b < 10" and e: "digit_char a = digit_char b"
  then have "a \<in> {0, 1, 2, 3, 4, 5, 6, 7, 8, 9}" "b \<in> {0, 1, 2, 3, 4, 5, 6, 7, 8, 9}" by auto
  with e show ?thesis by (auto simp: digit_char_def)
qed

lemma last_hms: "last (hms n) = digit_char (n mod 60 mod 10)"
  by (simp add: hms_def)

lemma mod_60_10_successor: "(n::nat) mod 60 mod 10 \<noteq> (n + 1) mod 60 mod 10"
proof -
  consider "n mod 60 = 59" | "n mod 60 < 59" by force
  then show ?thesis
  proof cases
    case 1
    then have "(n + 1) mod 60 = 0" by (simp add: mod_Suc)
    with 1 show ?thesis by simp
  next
    case 2
    then have "(n + 1) mod 60 = n mod 60 + 1" by (simp add: mod_Suc)
    then show ?thesis by (simp add: mod_Suc)
  qed
qed

lemma hms_successor: "hms n \<noteq> hms (n + 1)"
proof
  assume "hms n = hms (n + 1)"
  then have "last (hms n) = last (hms (n + 1))" by simp
  then have "digit_char (n mod 60 mod 10) = digit_char ((n + 1) mod 60 mod 10)"
    by (simp only: last_hms)
  moreover have "n mod 60 mod 10 < 10" "(n + 1) mod 60 mod 10 < 10" by simp_all
  ultimately have "n mod 60 mod 10 = (n + 1) mod 60 mod 10"
    using digit_char_inj by blast
  then show False using mod_60_10_successor by blast
qed

text \<open>\<open>str\<close> of any \<open>timedelta\<close> without microseconds.\<close>

lemma timedelta_str_whole:
  assumes "0 \<le> s" and "s < 86400"
  shows "timedelta_str \<lparr>td_days = d, td_seconds = s, td_microseconds = 0\<rparr>
           = (if d \<noteq> 0 then fmt_d d @ '' day'' @ (if \<bar>d\<bar> \<noteq> 1 then ''s'' else '''') @ '', ''
              else '''') @ hms (nat s)"
proof -
  have "timedelta_str \<lparr>td_days = d, td_seconds = s, td_microseconds = 0\<rparr>
          = (if d \<noteq> 0 then fmt_d d @ '' day'' @ (if \<bar>d\<bar> \<noteq> 1 then ''s'' else '''') @ '', ''
             else '''') @ timedelta_str \<lparr>td_days = 0, td_seconds = s, td_microseconds = 0\<rparr>"
    by (simp add: timedelta_str_def Let_def)
  with assms show ?thesis by (simp only: timedelta_str_day)
qed

lemma format_timestamp_whole:
  "format_timestamp x =
     (if \<bar>py_int x div 86400\<bar> > 999999999 then Inl OverflowError
      else Inr ((if py_int x div 86400 \<noteq> 0
                 then fmt_d (py_int x div 86400) @ '' day''
                      @ (if \<bar>py_int x div 86400\<bar> \<noteq> 1 then ''s'' else '''') @ '', ''
                 else '''')
                @ hms (nat (py_int x mod 86400))))"
proof -
  have "0 \<le> py_int x mod 86400" "py_int x mod 86400 < 86400" by simp_all
  then show ?thesis
    by (simp add: format_timestamp_def timedelta_seconds_def Let_def timedelta_str_whole)
qed

text \<open>
  Claim C4: \<open>format_timestamp\<close> renders the offset truncated to an integer, not rounded.
  What it renders is \<open>int(seconds)\<close>, the integer next to the offset towards zero: below
  one day the result is \<open>H:MM:SS\<close> of the whole seconds of the offset, never that of the
  next second, and in general it is the day prefix and \<open>H:MM:SS\<close> of the days and seconds
  of \<open>int(seconds)\<close>. So every offset from 65 up to but excluding 66, among them 65.9 and
  the float nearest to it, gives \<open>0:01:05\<close> and not \<open>0:01:06\<close>.
\<close>

theorem format_timestamp_truncates:
  "(0 \<le> x \<and> x < 86400 \<longrightarrow>
      format_timestamp x = Inr (hms (nat \<lfloor>x\<rfloor>))
      \<and> format_timestamp x \<noteq> Inr (hms (nat \<lfloor>x\<rfloor> + 1)))
   \<and> format_timestamp x =
       (if \<bar>py_int x div 86400\<bar> > 999999999 then Inl OverflowError
        else Inr ((if py_int x div 86400 \<noteq> 0
                   then fmt_d (py_int x div 86400) @ '' day''
                        @ (if \<bar>py_int x div 86400\<bar> \<noteq> 1 then ''s'' else '''') @ '', ''
                   else '''')
                  @ hms (nat (py_int x mod 86400))))
   \<and> format_timestamp x = format_timestamp (of_int (py_int x))
   \<and> \<bar>of_int (py_int x)\<bar> \<le> \<bar>x\<bar> \<and> \<bar>x - of_int (py_int x)\<bar> < 1
   \<and> (65 \<le> x \<and> x < 66 \<longrightarrow> format_timestamp x = Inr ''0:01:05'')
   \<and> format_timestamp 65.9 = Inr ''0:01:05'' \<and> format_timestamp 65.9 \<noteq> Inr ''0:01:06''"
proof -
  have 0: "format_timestamp x = Inr (hms (nat \<lfloor>x\<rfloor>))
           \<and> format_timestamp x \<noteq> Inr (hms (nat \<lfloor>x\<rfloor> + 1))" if "0 \<le> x" "x < 86400"
    using that hms_successor [of "nat \<lfloor>x\<rfloor>"] by (simp add: format_timestamp_day)
  have 1: "format_timestamp x = format_timestamp (of_int (py_int x))"
    by (simp add: format_timestamp_def py_int_def)
  have 2: "\<bar>of_int (py_int x)\<bar> \<le> \<bar>x\<bar> \<and> \<bar>x - of_int (py_int x)\<bar> < 1"
    unfolding py_int_def by (auto; linarith)
  have 3: "format_timestamp x = Inr ''0:01:05''" if "65 \<le> x" "x < 66"
  proof -
    from that have "\<lfloor>x\<rfloor> = 65" by (simp add: floor_eq_iff)
    with that show ?thesis by (simp add: timestamp_defs)
  qed
  have 4: "format_timestamp 65.9 = Inr ''0:01:05''"
    by (simp add: timestamp_defs)
  have 5: "format_timestamp 65.9 \<noteq> Inr ''0:01:06''"
    by (simp add: 4)
  from 0 1 2 3 4 5 format_timestamp_whole [of x] show ?thesis by blast
qed

theorem format_timestamp_truncates_witness:
  "(0::real) \<le> 65.9 \<and> (65.9::real) < 86400 \<and> (65::real) \<le> 65.9 \<and> (65.9::real) < 66
   \<and> py_int 65.9 = 65 \<and> hms (nat \<lfloor>65.9::real\<rfloor>) = ''0:01:05''
   \<and> format_timestamp 65.9 = Inr (hms (nat \<lfloor>65.9::real\<rfloor>))
   \<and> format_timestamp 65.9 \<noteq> Inr (hms (nat \<lfloor>65.9::real\<rfloor> + 1))
   \<and> format_timestamp 65.9 = Inr ''0:01:05'' \<and> format_timestamp 65 = Inr ''0:01:05''"
proof -
  have r: "(0::real) \<le> 65.9" "(65.9::real) < 86400" "(65::real) \<le> 65.9" "(65.9::real) < 66"
    by simp_all
  have p: "py_int 65.9 = 65" by (simp add: py_int_def)
  have h: "hms (nat \<lfloor>65.9::real\<rfloor>) = ''0:01:05''"
    by (simp add: hms_def digits.simps digit_char_def)
  note t = format_timestamp_truncates [of "65.9"]
  from t r have a: "format_timestamp 65.9 = Inr (hms (nat \<lfloor>65.9::real\<rfloor>))"
    and b: "format_timestamp 65.9 \<noteq> Inr (hms (nat \<lfloor>65.9::real\<rfloor> + 1))" by blast+
  from t have c: "format_timestamp 65.9 = format_timestamp (of_int (py_int 65.9))" by blast
  from c p a h have d: "format_timestamp 65 = Inr ''0:01:05''" by simp
  from r p h a b d show ?thesis by (simp only:) simp
qed

section \<open>Properties of the file names\<close>

text \<open>The loop over \<open>invalid_chars\<close> removes exactly the characters of that string.\<close>

lemma foldl_str_delete:
  "foldl (\<lambda>filename char. str_delete char filename) s cs = filter (\<lambda>x. x \<notin> set cs) s"
  by (induction cs arbitrary: s) (auto simp: str_delete_def intro: filter_cong)

lemma sanitize_filename_eq:
  "sanitize_filename f = take 200 (str_strip (filter (\<lambda>c. c \<notin> set invalid_chars) f))"
  by (simp add: sanitize_filename_def foldl_str_delete)

lemma set_str_strip: "set (str_strip s) \<subseteq> set s"
proof -
  have "set (dropWhile P xs) \<subseteq> set xs" for P and xs :: string
    by (auto dest: set_dropWhileD)
  then show ?thesis unfolding str_strip_def set_rev
    by (metis dual_order.trans set_rev)
qed

lemma sanitize_filename_no_invalid: "c \<in> set (sanitize_filename f) \<Longrightarrow> c \<notin> set invalid_chars"
proof -
  assume "c \<in> set (sanitize_filename f)"
  then have "c \<in> set (str_strip (filter (\<lambda>c. c \<notin> set invalid_chars) f))"
    by (auto simp: sanitize_filename_eq dest: in_set_takeD)
  then have "c \<in> set (filter (\<lambda>c. c \<notin> set invalid_chars) f)"
    using set_str_strip by blast
  then show ?thesis by simp
qed

text \<open>What \<open>strip\<close> returns is the start of the string without its leading whitespace.\<close>

lemma str_strip_prefix: "\<exists>t. dropWhile isspace s = str_strip s @ t"
proof -
  let ?d = "dropWhile isspace s"
  have "rev (dropWhile isspace (rev ?d)) @ rev (takeWhile isspace (rev ?d))
        = rev (takeWhile isspace (rev ?d) @ dropWhile isspace (rev ?d))"
    by (simp only: rev_append)
  also have "\<dots> = ?d"
    by (simp only: takeWhile_dropWhile_id rev_rev_ident)
  finally have "?d = str_strip s @ rev (takeWhile isspace (rev ?d))"
    by (simp add: str_strip_def)
  then show ?thesis ..
qed

lemma str_strip_hd: "str_strip s \<noteq> [] \<Longrightarrow> \<not> isspace (hd (str_strip s))"
proof -
  assume ne: "str_strip s \<noteq> []"
  obtain t where t: "dropWhile isspace s = str_strip s @ t" using str_strip_prefix by blast
  with ne have "hd (dropWhile isspace s) = hd (str_strip s)" by simp
  moreover from t ne have "dropWhile isspace s \<noteq> []" by auto
  ultimately show ?thesis using hd_dropWhile [of isspace s] by auto
qed

lemma str_strip_last: "str_strip s \<noteq> [] \<Longrightarrow> \<not> isspace (last (str_strip s))"
proof -
  assume ne: "str_strip s \<noteq> []"
  let ?d = "dropWhile isspace (rev (dropWhile isspace s))"
  from ne have d: "?d \<noteq> []" by (simp add: str_strip_def)
  have "last (str_strip s) = hd ?d" using d by (simp add: str_strip_def last_rev)
  with d show ?thesis using hd_dropWhile [of isspace "rev (dropWhile isspace s)"] by auto
qed

lemmas sanitize_defs = sanitize_filename_eq str_strip_def invalid_chars_def isspace_def

text \<open>
  Claim C5, as stated: the result has no character of the set, no leading or trailing
  whitespace and at most 200 characters. The trailing part fails: the name is trimmed
  first and cut to 200 characters afterwards, and the cut can end inside a run of
  spaces.
\<close>

theorem sanitize_filename_trailing_space_counterexample:
  "sanitize_filename (CHR ''a'' # replicate 200 CHR '' '' @ ''b'')
     = CHR ''a'' # replicate 199 CHR '' ''
   \<and> isspace (last (sanitize_filename (CHR ''a'' # replicate 200 CHR '' '' @ ''b'')))"
proof -
  have "sanitize_filename (CHR ''a'' # replicate 200 CHR '' '' @ ''b'')
          = CHR ''a'' # replicate 199 CHR '' ''"
    by (simp add: sanitize_defs)
  then show ?thesis by (simp add: isspace_def)
qed

text \<open>
  Claim C5, amended: for every input string, \<open>sanitize_filename\<close> returns the first 200
  characters of the input with the characters of the set removed and then trimmed; the
  result contains no character of the set, does not start with whitespace, has length
  at most 200, and does not end with whitespace whenever the trimmed string has at most
  200 characters (nothing is cut). A title of 250 \<open>a\<close> yields exactly 200 \<open>a\<close>.
\<close>

theorem sanitize_filename_safe:
  "(\<forall>c\<in>set (sanitize_filename f). c \<notin> set invalid_chars)
   \<and> length (sanitize_filename f) \<le> 200
   \<and> (sanitize_filename f \<noteq> [] \<longrightarrow> \<not> isspace (hd (sanitize_filename f)))
   \<and> (sanitize_filename f \<noteq> []
        \<and> length (str_strip (filter (\<lambda>c. c \<notin> set invalid_chars) f)) \<le> 200
      \<longrightarrow> \<not> isspace (last (sanitize_filename f)))
   \<and> sanitize_filename f = take 200 (str_strip (filter (\<lambda>c. c \<notin> set invalid_chars) f))
   \<and> sanitize_filename (replicate 250 CHR ''a'') = replicate 200 CHR ''a''"
proof -
  let ?t = "str_strip (filter (\<lambda>c. c \<notin> set invalid_chars) f)"
  have eq: "sanitize_filename f = take 200 ?t" by (rule sanitize_filename_eq)
  have 1: "\<forall>c\<in>set (sanitize_filename f). c \<notin> set invalid_chars"
    using sanitize_filename_no_invalid by blast
  have 2: "length (sanitize_filename f) \<le> 200" by (simp add: eq)
  have 3: "\<not> isspace (hd (sanitize_filename f))" if "sanitize_filename f \<noteq> []"
  proof -
    from that have "?t \<noteq> []" by (auto simp: eq)
    then have "\<not> isspace (hd ?t)" by (rule str_strip_hd)
    then show ?thesis by (simp add: eq)
  qed
  have 4: "\<not> isspace (last (sanitize_filename f))"
    if "sanitize_filename f \<noteq> []" and "length ?t \<le> 200"
  proof -
    from that have "sanitize_filename f = ?t" and "?t \<noteq> []" by (auto simp: eq)
    then show ?thesis using str_strip_last [of "filter (\<lambda>c. c \<notin> set invalid_chars) f"] by simp
  qed
  have 5: "sanitize_filename (replicate 250 CHR ''a'') = replicate 200 CHR ''a''"
    by (simp add: sanitize_defs)
  from 1 2 3 4 5 eq show ?thesis by blast
qed

theorem sanitize_filename_safe_witness:
  "sanitize_filename ''  a<b>c: d?  '' = ''abc d''
   \<and> length (sanitize_filename ''  a<b>c: d?  '') \<le> 200
   \<and> \<not> isspace (hd (sanitize_filename ''  a<b>c: d?  ''))
   \<and> \<not> isspace (last (sanitize_filename ''  a<b>c: d?  ''))"
proof -
  have v: "sanitize_filename ''  a<b>c: d?  '' = ''abc d''"
    by (simp add: sanitize_defs)
  have s: "str_strip (filter (\<lambda>c. c \<notin> set invalid_chars) ''  a<b>c: d?  '') = ''abc d''"
    by (simp add: str_strip_def invalid_chars_def isspace_def)
  have ne: "sanitize_filename ''  a<b>c: d?  '' \<noteq> []"
    by (simp only: v) simp
  have len: "length (str_strip (filter (\<lambda>c. c \<notin> set invalid_chars) ''  a<b>c: d?  '')) \<le> 200"
    by (simp only: s) simp
  from sanitize_filename_safe [of "''  a<b>c: d?  ''"] v ne len show ?thesis by blast
qed

section \<open>Properties of the paths and of the saving functions\<close>

lemma base_filename_chars:
  assumes "video_id_ok video_id" and "c \<in> set (base_filename video_id video_title)"
  shows "c \<noteq> CHR ''/''"
proof -
  have "c \<in> set video_id \<or> (\<exists>t. c \<in> set (sanitize_filename t))"
    using assms(2) by (auto simp: base_filename_def split: option.splits if_splits)
  then show ?thesis
  proof
    assume "c \<in> set video_id"
    with assms(1) have "id_char c" by (simp add: video_id_ok_def list_all_iff)
    then show ?thesis using not_id_slash by auto
  next
    assume "\<exists>t. c \<in> set (sanitize_filename t)"
    then have "c \<notin> set invalid_chars" using sanitize_filename_no_invalid by blast
    then show ?thesis by (auto simp: invalid_chars_def)
  qed
qed

lemma base_filename_no_slash:
  assumes "video_id_ok video_id" and "x \<noteq> CHR ''/''"
  shows "take 1 (base_filename video_id video_title @ x # s) \<noteq> ''/''"
proof (cases "base_filename video_id video_title")
  case Nil
  with assms(2) show ?thesis by simp
next
  case (Cons a u)
  then have "a \<in> set (base_filename video_id video_title)" by simp
  with assms(1) have "a \<noteq> CHR ''/''" by (rule base_filename_chars)
  with Cons show ?thesis by simp
qed

lemma path_join_transcripts:
  "take 1 b \<noteq> ''/'' \<Longrightarrow> path_join ''transcripts'' b = ''transcripts/'' @ b"
  by (simp add: path_join_def)

lemma raw_filepath_eq:
  assumes "video_id_ok video_id"
  shows "raw_filepath video_id video_title
           = ''transcripts/'' @ base_filename video_id video_title @ ''_raw.md''"
proof -
  have "take 1 (base_filename video_id video_title @ ''_raw.md'') \<noteq> ''/''"
    using base_filename_no_slash [OF assms, of "CHR ''_''" video_title "''raw.md''"] by simp
  then show ?thesis unfolding raw_filepath_def by (rule path_join_transcripts)
qed

lemma cleaned_filepath_eq:
  assumes "video_id_ok video_id"
  shows "cleaned_filepath video_id video_title
           = ''transcripts/'' @ base_filename video_id video_title @ ''.md''"
proof -
  have "take 1 (base_filename video_id video_title @ ''.md'') \<noteq> ''/''"
    using base_filename_no_slash [OF assms, of "CHR ''.''" video_title "''md''"] by simp
  then show ?thesis unfolding cleaned_filepath_def by (rule path_join_transcripts)
qed

lemma raw_cleaned_distinct:
  "raw_filepath video_id video_title \<noteq> cleaned_filepath video_id video_title"
proof -
  have "length (path_join a (b @ ''_raw.md'')) = length (path_join a (b @ ''.md'')) + 4" for a b
    by (cases b) (simp_all add: path_join_def)
  then have "length (raw_filepath video_id video_title)
               = length (cleaned_filepath video_id video_title) + 4"
    by (simp add: raw_filepath_def cleaned_filepath_def)
  then show ?thesis by auto
qed

lemma format_entries_length: "format_entries es = Inr ls \<Longrightarrow> length ls = length es"
  by (induction es arbitrary: ls) (auto split: sum.splits)

lemma write_entries_format:
  "format_entries es = Inr ls \<Longrightarrow>
   write_entries es f = (f @ concat (map (\<lambda>l. l @ [newline]) ls), None)"
  by (induction es arbitrary: f ls) (auto split: sum.splits)

lemma concat_lines_join:
  "ls \<noteq> [] \<Longrightarrow> concat (map (\<lambda>l. l @ [newline]) ls) = str_join [newline] ls @ [newline]"
  by (induction "[newline]" ls rule: str_join.induct) simp_all

lemma write_entries_blob:
  assumes "format_entries es = Inr ls" and "es \<noteq> []"
  shows "write_entries es f = (f @ str_join [newline] ls @ [newline], None)"
proof -
  from assms have "ls \<noteq> []" using format_entries_length by fastforce
  then show ?thesis using assms(1) by (simp add: write_entries_format concat_lines_join)
qed

lemma ensure_transcripts_dir_ok:
  "path_exists w ''transcripts'' \<or> makedirs_ok env ''transcripts'' \<Longrightarrow>
   ensure_transcripts_dir env w = Inr (with_transcripts_dir w)"
  by (auto simp: ensure_transcripts_dir_def with_transcripts_dir_def)

lemma path_exists_with_dir: "path_exists (with_transcripts_dir w) ''transcripts''"
  by (simp add: with_transcripts_dir_def path_exists_def log_event_def)

lemma save_raw_transcript_ok:
  assumes "path_exists w ''transcripts'' \<or> makedirs_ok env ''transcripts''"
    and "format_entries transcript = Inr ls" and "transcript \<noteq> []"
  shows "save_raw_transcript env video_id video_title transcript w =
     Inr (if open_ok env (raw_filepath video_id video_title)
          then (Some (raw_filepath video_id video_title),
                (log_event (Open_write (raw_filepath video_id video_title)) (with_transcripts_dir w))
                \<lparr>files := (files (with_transcripts_dir w))(raw_filepath video_id video_title \<mapsto>
                     raw_header video_title @ str_join [newline] ls @ [newline])\<rparr>)
          else (None, log_event (Open_write (raw_filepath video_id video_title)) (with_transcripts_dir w)))"
  using assms
  by (simp add: save_raw_transcript_def ensure_transcripts_dir_ok write_entries_blob Let_def log_event_def)

section \<open>Properties of a run\<close>

lemma path_exists_log_event [simp]: "path_exists (log_event ev w) p = path_exists w p"
  by (simp add: path_exists_def log_event_def)

lemma get_video_title_world:
  "snd (get_video_title env video_id w) = log_event (Title_lookup (oembed_url video_id)) w"
  by (simp add: get_video_title_def Let_def split: sum.splits)

lemma get_video_title_result:
  "fst (get_video_title env video_id w) = fst (get_video_title env video_id w')"
  by (simp add: get_video_title_def Let_def split: sum.splits)

lemma get_transcript_world:
  "snd (get_transcript env video_id w) = log_event (Transcript_lookup video_id) w"
  by (simp add: get_transcript_def Let_def split: sum.splits)

lemma get_transcript_result:
  "fst (get_transcript env video_id w) = fst (get_transcript env video_id w')"
  by (simp add: get_transcript_def Let_def split: sum.splits)

lemma clean_world:
  "snd (clean_transcript_with_gemini env raw w) = log_event (Cleaning_call raw) w"
  by (simp add: clean_transcript_with_gemini_def Let_def split: sum.splits)

lemma clean_result:
  "fst (clean_transcript_with_gemini env raw w) = fst (clean_transcript_with_gemini env raw w')"
  by (simp add: clean_transcript_with_gemini_def Let_def split: sum.splits)

lemma save_cleaned_transcript_ok:
  assumes "path_exists w ''transcripts''"
  shows "save_cleaned_transcript env video_id video_title cleaned_text w =
     Inr (if open_ok env (cleaned_filepath video_id video_title)
          then (Some (cleaned_filepath video_id video_title),
                (log_event (Open_write (cleaned_filepath video_id video_title)) w)
                \<lparr>files := (files w)(cleaned_filepath video_id video_title \<mapsto>
                     cleaned_header video_title @ cleaned_text)\<rparr>)
          else (None, log_event (Open_write (cleaned_filepath video_id video_title)) w))"
  using assms
  by (simp add: save_cleaned_transcript_def ensure_transcripts_dir_def Let_def log_event_def)

lemma main_with_transcript:
  assumes ex: "extract_video_id url = Some video_id"
    and ti: "fst (get_video_title env video_id w) = video_title"
    and tr: "fst (get_transcript env video_id wa) = Some transcript" and ne: "transcript \<noteq> []"
    and fe: "format_entries transcript = Inr ls"
    and dir: "path_exists w ''transcripts'' \<or> makedirs_ok env ''transcripts''"
  shows "\<exists>w' rest. main env url w = Inr w'
     \<and> trace w' = trace w @ run_events w video_id video_title (str_join [newline] ls) @ rest
     \<and> (rest = [] \<or> rest = [Open_write (cleaned_filepath video_id video_title)])
     \<and> (fst (clean_transcript_with_gemini env (str_join [newline] ls) wb) = None \<longrightarrow>
          rest = [] \<and> files w' (cleaned_filepath video_id video_title)
                        = files w (cleaned_filepath video_id video_title))
     \<and> files w' (raw_filepath video_id video_title) =
          (if open_ok env (raw_filepath video_id video_title)
           then Some (raw_header video_title @ str_join [newline] ls @ [newline])
           else files w (raw_filepath video_id video_title))
     \<and> dirs w' = (if path_exists w ''transcripts'' then dirs w else insert ''transcripts'' (dirs w))"
proof -
  let ?blob = "str_join [newline] ls"
  let ?w1 = "log_event (Title_lookup (oembed_url video_id)) w"
  let ?w2 = "log_event (Transcript_lookup video_id) ?w1"
  let ?raw = "raw_filepath video_id video_title"
  let ?cl = "cleaned_filepath video_id video_title"
  from ex have "video_id_ok video_id" by (rule extract_video_id_ok)
  then have v: "video_id \<noteq> []" by (auto simp: video_id_ok_def)
  have gvt: "get_video_title env video_id w = (video_title, ?w1)"
    using ti get_video_title_world [of env video_id w] by (simp add: prod_eq_iff)
  have gt: "get_transcript env video_id ?w1 = (Some transcript, ?w2)"
    using tr get_transcript_result [of env video_id ?w1 wa] get_transcript_world [of env video_id ?w1]
    by (simp add: prod_eq_iff)
  from dir have dir2: "path_exists ?w2 ''transcripts'' \<or> makedirs_ok env ''transcripts''" by simp
  note sr = save_raw_transcript_ok [OF dir2 fe ne, of video_id video_title]
  define w3 where "w3 = snd (if open_ok env ?raw
          then (Some ?raw,
                (log_event (Open_write ?raw) (with_transcripts_dir ?w2))
                \<lparr>files := (files (with_transcripts_dir ?w2))(?raw \<mapsto>
                     raw_header video_title @ ?blob @ [newline])\<rparr>)
          else (None, log_event (Open_write ?raw) (with_transcripts_dir ?w2)))"
  have sr': "\<exists>saved. save_raw_transcript env video_id video_title transcript ?w2 = Inr (saved, w3)"
    unfolding sr w3_def by (simp add: prod_eq_iff)
  then obtain saved where sr'': "save_raw_transcript env video_id video_title transcript ?w2 = Inr (saved, w3)" ..
  have w3_trace: "trace w3 = trace w @ [Title_lookup (oembed_url video_id), Transcript_lookup video_id]
     @ (if path_exists w ''transcripts'' then [] else [Makedirs ''transcripts''])
     @ [Open_write ?raw]"
    by (simp add: w3_def with_transcripts_dir_def log_event_def path_exists_def)
  have w3_files: "files w3 = (if open_ok env ?raw
           then (files w)(?raw \<mapsto> raw_header video_title @ ?blob @ [newline]) else files w)"
    by (simp add: w3_def with_transcripts_dir_def log_event_def path_exists_def)
  have w3_dirs: "dirs w3 = (if path_exists w ''transcripts'' then dirs w else insert ''transcripts'' (dirs w))"
    by (simp add: w3_def with_transcripts_dir_def log_event_def path_exists_def)
  have w3_exists: "path_exists w3 ''transcripts''"
    using w3_dirs w3_files by (auto simp: path_exists_def)
  let ?w4 = "log_event (Cleaning_call ?blob) w3"
  obtain r where cl: "clean_transcript_with_gemini env ?blob w3 = (r, ?w4)"
    using clean_world [of env ?blob w3] by (metis prod.collapse)
  have r: "fst (clean_transcript_with_gemini env ?blob wb) = r"
    using cl clean_result [of env ?blob wb w3] by simp
  have w4_exists: "path_exists ?w4 ''transcripts''" using w3_exists by simp
  note sc = save_cleaned_transcript_ok [OF w4_exists, of env video_id video_title]
  have neq: "?raw \<noteq> ?cl" by (rule raw_cleaned_distinct)
  show ?thesis
  proof (cases "r = None \<or> r = Some []")
    case True
    then have m: "main env url w = Inr ?w4"
      using ex v gvt gt ne fe sr'' cl by (auto simp: main_def)
    have "files ?w4 ?cl = files w ?cl"
      using neq by (auto simp: log_event_def w3_files)
    then show ?thesis
      using m w3_trace w3_files w3_dirs
      by (intro exI [of _ ?w4] exI [of _ "[]"]) (simp add: log_event_def run_events_def)
  next
    case False
    then obtain c where c: "r = Some c" "c \<noteq> []" by auto
    let ?w5 = "snd (if open_ok env ?cl
          then (Some ?cl, (log_event (Open_write ?cl) ?w4)
                \<lparr>files := (files ?w4)(?cl \<mapsto> cleaned_header video_title @ c)\<rparr>)
          else (None, log_event (Open_write ?cl) ?w4))"
    have m: "main env url w = Inr ?w5"
      using ex v gvt gt ne fe sr'' cl c by (simp add: main_def sc)
    show ?thesis
      using m w3_trace w3_files w3_dirs neq r c
      by (intro exI [of _ ?w5] exI [of _ "[Open_write ?cl]"]) (simp add: log_event_def run_events_def)
  qed
qed

section \<open>The claims about a run\<close>

lemma save_cleaned_transcript_files:
  "save_cleaned_transcript env video_id video_title cleaned_text w = Inr (r, w') \<Longrightarrow>
   p \<noteq> cleaned_filepath video_id video_title \<Longrightarrow> files w' p = files w p"
  by (auto simp: save_cleaned_transcript_def ensure_transcripts_dir_def Let_def log_event_def
           split: if_splits)

lemma save_raw_transcript_files:
  "save_raw_transcript env video_id video_title transcript w = Inr (r, w') \<Longrightarrow>
   p \<noteq> raw_filepath video_id video_title \<Longrightarrow> files w' p = files w p"
  by (auto simp: save_raw_transcript_def ensure_transcripts_dir_def Let_def log_event_def
           split: if_splits prod.splits option.splits)

lemma sample_format:
  "format_entries sample_transcript = Inr [''[0:00:00] Hello'', ''[0:01:01] world'']"
  by (simp add: sample_transcript_def formatted_line_def timestamp_defs)

lemma sample_extract:
  "extract_video_id ''https://www.youtube.com/watch?v=dQw4w9WgXcQ'' = Some ''dQw4w9WgXcQ''"
  by (simp add: url_parser_defs)

lemma sample_raw_path:
  "raw_filepath ''dQw4w9WgXcQ'' (Some ''Example Title'') = ''transcripts/Example Title_raw.md''"
  by (simp add: raw_filepath_def path_join_def base_filename_def sanitize_defs)

lemma sample_cleaned_path:
  "cleaned_filepath ''dQw4w9WgXcQ'' (Some ''Example Title'') = ''transcripts/Example Title.md''"
  by (simp add: cleaned_filepath_def path_join_def base_filename_def sanitize_defs)

text \<open>
  Claim C6: when \<open>get_transcript\<close> returns nothing (or an empty transcript, which
  \<open>main\<close> treats alike), \<open>main\<close> returns with the directories and files untouched: the
  only events of the run are the two lookups, so no directory is made, no file is
  opened and no cleaning call is attempted.
\<close>

theorem main_without_transcript:
  assumes "extract_video_id url = Some video_id"
    and "fst (get_transcript env video_id wa) = None \<or> fst (get_transcript env video_id wa) = Some []"
  shows "main env url w =
           Inr (w\<lparr>trace := trace w @ [Title_lookup (oembed_url video_id), Transcript_lookup video_id]\<rparr>)"
proof -
  let ?w1 = "log_event (Title_lookup (oembed_url video_id)) w"
  let ?w2 = "log_event (Transcript_lookup video_id) ?w1"
  from assms(1) have "video_id_ok video_id" by (rule extract_video_id_ok)
  then have v: "video_id \<noteq> []" by (auto simp: video_id_ok_def)
  obtain t where gvt: "get_video_title env video_id w = (t, ?w1)"
    using get_video_title_world [of env video_id w] by (metis prod.collapse)
  obtain r where gt: "get_transcript env video_id ?w1 = (r, ?w2)"
    using get_transcript_world [of env video_id ?w1] by (metis prod.collapse)
  have "fst (get_transcript env video_id wa) = r"
    using gt get_transcript_result [of env video_id wa ?w1] by simp
  with assms(2) have "r = None \<or> r = Some []" by simp
  then have "main env url w = Inr ?w2"
    using assms(1) v gvt gt by (auto simp: main_def)
  then show ?thesis by (simp add: log_event_def)
qed

theorem main_without_transcript_witness:
  "extract_video_id ''https://www.youtube.com/watch?v=dQw4w9WgXcQ'' = Some ''dQw4w9WgXcQ''
   \<and> fst (get_transcript (sample_env (\<lambda>u. Inl LibraryError) (\<lambda>v. Inl LibraryError))
             ''dQw4w9WgXcQ'' empty_world) = None
   \<and> main (sample_env (\<lambda>u. Inl LibraryError) (\<lambda>v. Inl LibraryError))
        ''https://www.youtube.com/watch?v=dQw4w9WgXcQ'' empty_world
      = Inr \<lparr>dirs = {}, files = Map.empty,
             trace = [Title_lookup (oembed_url ''dQw4w9WgXcQ''), Transcript_lookup ''dQw4w9WgXcQ'']\<rparr>"
proof -
  let ?env = "sample_env (\<lambda>u. Inl LibraryError) (\<lambda>v. Inl LibraryError)"
  have e: "extract_video_id ''https://www.youtube.com/watch?v=dQw4w9WgXcQ'' = Some ''dQw4w9WgXcQ''"
    by (simp add: url_parser_defs)
  have g: "fst (get_transcript ?env ''dQw4w9WgXcQ'' empty_world) = None"
    by (simp add: get_transcript_def sample_env_def)
  from main_without_transcript [OF e disjI1 [OF g], of empty_world] e g
  show ?thesis by (simp add: empty_world_def)
qed

text \<open>
  Claim C7: when the cleaning call returns the failure sentinel, whichever way the call
  failed, \<open>main\<close> still returns normally. The events of the run end with the opening of
  the raw file followed by one single cleaning call: nothing is retried and the cleaned
  file is never opened. The raw file, written before the call, is still there with its
  header and body (given that the file system let it be opened), and the file at the
  cleaned path is what it was before the run. The premises say that the run gets as far
  as the cleaning call: the transcript is there and not empty, every line can be
  formatted, and the output directory exists or can be made.
\<close>

theorem main_cleaning_failure:
  assumes "extract_video_id url = Some video_id"
    and "fst (get_video_title env video_id w) = video_title"
    and "fst (get_transcript env video_id wa) = Some transcript" and "transcript \<noteq> []"
    and "format_entries transcript = Inr ls"
    and "path_exists w ''transcripts'' \<or> makedirs_ok env ''transcripts''"
    and "fst (clean_transcript_with_gemini env (str_join [newline] ls) wb) = None"
  shows "\<exists>w'. main env url w = Inr w'
     \<and> trace w' = trace w
          @ [Title_lookup (oembed_url video_id), Transcript_lookup video_id]
          @ (if path_exists w ''transcripts'' then [] else [Makedirs ''transcripts''])
          @ [Open_write (raw_filepath video_id video_title),
             Cleaning_call (str_join [newline] ls)]
     \<and> files w' (raw_filepath video_id video_title) =
          (if open_ok env (raw_filepath video_id video_title)
           then Some (raw_header video_title @ str_join [newline] ls @ [newline])
           else files w (raw_filepath video_id video_title))
     \<and> files w' (cleaned_filepath video_id video_title)
          = files w (cleaned_filepath video_id video_title)"
proof -
  from main_with_transcript [OF assms(1-6), of wb] assms(7)
  obtain w' rest where "main env url w = Inr w'"
    and "trace w' = trace w @ run_events w video_id video_title (str_join [newline] ls) @ rest"
    and "rest = []"
    and "files w' (cleaned_filepath video_id video_title)
          = files w (cleaned_filepath video_id video_title)"
    and "files w' (raw_filepath video_id video_title) =
          (if open_ok env (raw_filepath video_id video_title)
           then Some (raw_header video_title @ str_join [newline] ls @ [newline])
           else files w (raw_filepath video_id video_title))"
    by auto
  then show ?thesis by (auto simp: run_events_def)
qed


theorem main_cleaning_failure_witness:
  "\<exists>w'. main (sample_env (\<lambda>u. Inr \<lparr>status_code = 200, json_title = Inr ''Example Title''\<rparr>)
                          (\<lambda>v. Inr sample_transcript))
              ''https://www.youtube.com/watch?v=dQw4w9WgXcQ'' empty_world = Inr w'
     \<and> trace w' = [Title_lookup (oembed_url ''dQw4w9WgXcQ''), Transcript_lookup ''dQw4w9WgXcQ'',
                   Makedirs ''transcripts'', Open_write ''transcripts/Example Title_raw.md'',
                   Cleaning_call (''[0:00:00] Hello'' @ [newline] @ ''[0:01:01] world'')]
     \<and> files w' ''transcripts/Example Title_raw.md''
          = Some (''# Example Title (Raw Transcript)'' @ [newline, newline] @ ''---''
                  @ [newline, newline] @ ''[0:00:00] Hello'' @ [newline]
                  @ ''[0:01:01] world'' @ [newline])
     \<and> files w' ''transcripts/Example Title.md'' = None"
proof -
  let ?env = "sample_env (\<lambda>u. Inr \<lparr>status_code = 200, json_title = Inr ''Example Title''\<rparr>)
                         (\<lambda>v. Inr sample_transcript)"
  have ti: "fst (get_video_title ?env ''dQw4w9WgXcQ'' empty_world) = Some ''Example Title''"
    by (simp add: get_video_title_def sample_env_def)
  have tr: "fst (get_transcript ?env ''dQw4w9WgXcQ'' empty_world) = Some sample_transcript"
    by (simp add: get_transcript_def sample_env_def)
  have ne: "sample_transcript \<noteq> []" by (simp add: sample_transcript_def)
  have dir: "path_exists empty_world ''transcripts'' \<or> makedirs_ok ?env ''transcripts''"
    by (simp add: sample_env_def)
  have cf: "fst (clean_transcript_with_gemini ?env
                  (str_join [newline] [''[0:00:00] Hello'', ''[0:01:01] world'']) empty_world) = None"
    by (simp add: clean_transcript_with_gemini_def sample_env_def)
  have nd: "\<not> path_exists empty_world ''transcripts''"
    by (simp add: path_exists_def empty_world_def)
  have op: "open_ok ?env ''transcripts/Example Title_raw.md''"
    by (simp add: sample_env_def)
  from main_cleaning_failure [OF sample_extract ti tr ne sample_format dir cf]
  show ?thesis
    by (simp add: sample_raw_path sample_cleaned_path nd op raw_header_def title_or_unknown_def)
       (simp add: empty_world_def)
qed

text \<open>
  Claim C8: when the title lookup returns nothing and the transcript is there, the run
  opens and writes the raw file; its name is the video identifier followed by
  \<open>_raw.md\<close>, in \<open>transcripts\<close>, and its heading is \<open>Unknown Title\<close>. The premises beyond
  the claim's two say that nothing else stops the writing: every line can be formatted,
  the output directory exists or can be made, and the file can be opened.
\<close>

theorem main_without_title:
  assumes "extract_video_id url = Some video_id"
    and "fst (get_video_title env video_id w) = None"
    and "fst (get_transcript env video_id wa) = Some transcript" and "transcript \<noteq> []"
    and "format_entries transcript = Inr ls"
    and "path_exists w ''transcripts'' \<or> makedirs_ok env ''transcripts''"
    and "open_ok env (''transcripts/'' @ video_id @ ''_raw.md'')"
  shows "\<exists>w'. main env url w = Inr w'
     \<and> Open_write (''transcripts/'' @ video_id @ ''_raw.md'') \<in> set (trace w')
     \<and> files w' (''transcripts/'' @ video_id @ ''_raw.md'')
          = Some (''# Unknown Title (Raw Transcript)'' @ [newline, newline] @ ''---''
                  @ [newline, newline] @ concat (map (\<lambda>l. l @ [newline]) ls))"
proof -
  from assms(1) have ok: "video_id_ok video_id" by (rule extract_video_id_ok)
  have p: "raw_filepath video_id None = ''transcripts/'' @ video_id @ ''_raw.md''"
    using raw_filepath_eq [OF ok, of None] by (simp add: base_filename_def)
  have h: "raw_header None = ''# Unknown Title (Raw Transcript)'' @ [newline, newline] @ ''---''
                  @ [newline, newline]"
    by (simp add: raw_header_def title_or_unknown_def)
  from assms(4,5) have "ls \<noteq> []" using format_entries_length by fastforce
  then have b: "concat (map (\<lambda>l. l @ [newline]) ls) = str_join [newline] ls @ [newline]"
    by (rule concat_lines_join)
  from main_with_transcript [OF assms(1-6), of w]
  obtain w' rest where m: "main env url w = Inr w'"
    and t: "trace w' = trace w @ run_events w video_id None (str_join [newline] ls) @ rest"
    and f: "files w' (raw_filepath video_id None) =
          (if open_ok env (raw_filepath video_id None)
           then Some (raw_header None @ str_join [newline] ls @ [newline])
           else files w (raw_filepath video_id None))"
    by auto
  from t have "Open_write (raw_filepath video_id None) \<in> set (trace w')"
    by (simp add: run_events_def)
  with m f assms(7) show ?thesis
    unfolding p h b by (intro exI [of _ w']) simp
qed

theorem main_without_title_witness:
  "\<exists>w'. main (sample_env (\<lambda>u. Inr \<lparr>status_code = 404, json_title = Inl LibraryError\<rparr>)
                          (\<lambda>v. Inr sample_transcript))
              ''https://www.youtube.com/watch?v=dQw4w9WgXcQ'' empty_world = Inr w'
     \<and> Open_write ''transcripts/dQw4w9WgXcQ_raw.md'' \<in> set (trace w')
     \<and> files w' ''transcripts/dQw4w9WgXcQ_raw.md''
          = Some (''# Unknown Title (Raw Transcript)'' @ [newline, newline] @ ''---''
                  @ [newline, newline] @ ''[0:00:00] Hello'' @ [newline]
                  @ ''[0:01:01] world'' @ [newline])"
proof -
  let ?env = "sample_env (\<lambda>u. Inr \<lparr>status_code = 404, json_title = Inl LibraryError\<rparr>)
                         (\<lambda>v. Inr sample_transcript)"
  have ti: "fst (get_video_title ?env ''dQw4w9WgXcQ'' empty_world) = None"
    by (simp add: get_video_title_def sample_env_def)
  have tr: "fst (get_transcript ?env ''dQw4w9WgXcQ'' empty_world) = Some sample_transcript"
    by (simp add: get_transcript_def sample_env_def)
  have ne: "sample_transcript \<noteq> []" by (simp add: sample_transcript_def)
  have dir: "path_exists empty_world ''transcripts'' \<or> makedirs_ok ?env ''transcripts''"
    by (simp add: sample_env_def)
  have op: "open_ok ?env (''transcripts/'' @ ''dQw4w9WgXcQ'' @ ''_raw.md'')"
    by (simp add: sample_env_def)
  from main_without_title [OF sample_extract ti tr ne sample_format dir op]
  show ?thesis by simp
qed

text \<open>
  Claim C9: in a run that formats a transcript, the text passed to the cleaning call is
  the lines joined by newlines, and the content of the raw file after the header and
  the separator is that same text followed by one newline. (\<open>main\<close> formats only a
  transcript that is not empty.)
\<close>

theorem raw_body_is_blob:
  assumes "extract_video_id url = Some video_id"
    and "fst (get_video_title env video_id w) = video_title"
    and "fst (get_transcript env video_id wa) = Some transcript" and "transcript \<noteq> []"
    and "format_entries transcript = Inr ls"
    and "path_exists w ''transcripts'' \<or> makedirs_ok env ''transcripts''"
    and "open_ok env (raw_filepath video_id video_title)"
  shows "\<exists>w' rest. main env url w = Inr w'
     \<and> trace w' = trace w
          @ [Title_lookup (oembed_url video_id), Transcript_lookup video_id]
          @ (if path_exists w ''transcripts'' then [] else [Makedirs ''transcripts''])
          @ [Open_write (raw_filepath video_id video_title),
             Cleaning_call (str_join [newline] ls)]
          @ rest
     \<and> (rest = [] \<or> rest = [Open_write (cleaned_filepath video_id video_title)])
     \<and> files w' (raw_filepath video_id video_title)
          = Some (raw_header video_title @ str_join [newline] ls @ [newline])
     \<and> write_entries transcript (raw_header video_title)
          = (raw_header video_title @ str_join [newline] ls @ [newline], None)"
proof -
  from main_with_transcript [OF assms(1-6), of w]
  obtain w' rest where "main env url w = Inr w'"
    and "trace w' = trace w @ run_events w video_id video_title (str_join [newline] ls) @ rest"
    and "rest = [] \<or> rest = [Open_write (cleaned_filepath video_id video_title)]"
    and "files w' (raw_filepath video_id video_title) =
          (if open_ok env (raw_filepath video_id video_title)
           then Some (raw_header video_title @ str_join [newline] ls @ [newline])
           else files w (raw_filepath video_id video_title))"
    by auto
  with assms(7) write_entries_blob [OF assms(5,4), of "raw_header video_title"]
  show ?thesis
    by (intro exI [of _ w'] exI [of _ rest]) (simp add: run_events_def)
qed

theorem raw_body_is_blob_witness:
  "\<exists>w'. main (sample_env (\<lambda>u. Inr \<lparr>status_code = 200, json_title = Inr ''Example Title''\<rparr>)
                          (\<lambda>v. Inr sample_transcript))
              ''https://www.youtube.com/watch?v=dQw4w9WgXcQ'' empty_world = Inr w'
     \<and> Cleaning_call (''[0:00:00] Hello'' @ [newline] @ ''[0:01:01] world'') \<in> set (trace w')
     \<and> files w' ''transcripts/Example Title_raw.md''
          = Some (raw_header (Some ''Example Title'')
                  @ (''[0:00:00] Hello'' @ [newline] @ ''[0:01:01] world'') @ [newline])"
proof -
  let ?env = "sample_env (\<lambda>u. Inr \<lparr>status_code = 200, json_title = Inr ''Example Title''\<rparr>)
                         (\<lambda>v. Inr sample_transcript)"
  let ?url = "''https://www.youtube.com/watch?v=dQw4w9WgXcQ''"
  have ti: "fst (get_video_title ?env ''dQw4w9WgXcQ'' empty_world) = Some ''Example Title''"
    by (simp add: get_video_title_def sample_env_def)
  have tr: "fst (get_transcript ?env ''dQw4w9WgXcQ'' empty_world) = Some sample_transcript"
    by (simp add: get_transcript_def sample_env_def)
  have ne: "sample_transcript \<noteq> []" by (simp add: sample_transcript_def)
  have dir: "path_exists empty_world ''transcripts'' \<or> makedirs_ok ?env ''transcripts''"
    by (simp add: sample_env_def)
  have op: "open_ok ?env (raw_filepath ''dQw4w9WgXcQ'' (Some ''Example Title''))"
    by (simp add: sample_env_def)
  from raw_body_is_blob [OF sample_extract ti tr ne sample_format dir op]
  obtain w' rest where m: "main ?env ?url empty_world = Inr w'"
    and t: "trace w' = trace empty_world
          @ [Title_lookup (oembed_url ''dQw4w9WgXcQ''), Transcript_lookup ''dQw4w9WgXcQ'']
          @ (if path_exists empty_world ''transcripts'' then [] else [Makedirs ''transcripts''])
          @ [Open_write (raw_filepath ''dQw4w9WgXcQ'' (Some ''Example Title'')),
             Cleaning_call (str_join [newline] [''[0:00:00] Hello'', ''[0:01:01] world''])]
          @ rest"
    and f: "files w' (raw_filepath ''dQw4w9WgXcQ'' (Some ''Example Title''))
          = Some (raw_header (Some ''Example Title'')
                  @ str_join [newline] [''[0:00:00] Hello'', ''[0:01:01] world''] @ [newline])"
    by blast
  from t have "Cleaning_call (''[0:00:00] Hello'' @ [newline] @ ''[0:01:01] world'') \<in> set (trace w')"
    by simp
  with m f show ?thesis
    by (intro exI [of _ w']) (simp add: sample_raw_path)
qed

text \<open>
  Claim C10: for the identifier of a run and any title, the raw file is
  \<open>transcripts/{base}_raw.md\<close> and the cleaned file is \<open>transcripts/{base}.md\<close> with the
  same base name, the two paths differ, and neither saving function changes the file of
  the other.
\<close>

theorem raw_and_cleaned_paths_distinct:
  assumes "extract_video_id url = Some video_id"
  shows "raw_filepath video_id video_title
           = ''transcripts/'' @ base_filename video_id video_title @ ''_raw.md''
     \<and> cleaned_filepath video_id video_title
           = ''transcripts/'' @ base_filename video_id video_title @ ''.md''
     \<and> raw_filepath video_id video_title \<noteq> cleaned_filepath video_id video_title
     \<and> (\<forall>r w'. save_cleaned_transcript env video_id video_title cleaned_text w = Inr (r, w')
            \<longrightarrow> files w' (raw_filepath video_id video_title)
                  = files w (raw_filepath video_id video_title))
     \<and> (\<forall>r w'. save_raw_transcript env video_id video_title transcript w = Inr (r, w')
            \<longrightarrow> files w' (cleaned_filepath video_id video_title)
                  = files w (cleaned_filepath video_id video_title))"
proof -
  from assms have ok: "video_id_ok video_id" by (rule extract_video_id_ok)
  have d: "raw_filepath video_id video_title \<noteq> cleaned_filepath video_id video_title"
    by (rule raw_cleaned_distinct)
  then have d': "cleaned_filepath video_id video_title \<noteq> raw_filepath video_id video_title"
    by simp
  show ?thesis
    using raw_filepath_eq [OF ok] cleaned_filepath_eq [OF ok] d
      save_cleaned_transcript_files [OF _ d] save_raw_transcript_files [OF _ d']
    by blast
qed

theorem raw_and_cleaned_paths_distinct_witness:
  "extract_video_id ''https://www.youtube.com/watch?v=dQw4w9WgXcQ'' = Some ''dQw4w9WgXcQ''
   \<and> raw_filepath ''dQw4w9WgXcQ'' (Some ''Example: Title?'') = ''transcripts/Example Title_raw.md''
   \<and> cleaned_filepath ''dQw4w9WgXcQ'' (Some ''Example: Title?'') = ''transcripts/Example Title.md''
   \<and> raw_filepath ''dQw4w9WgXcQ'' (Some ''Example: Title?'')
       \<noteq> cleaned_filepath ''dQw4w9WgXcQ'' (Some ''Example: Title?'')"
proof -
  have b: "base_filename ''dQw4w9WgXcQ'' (Some ''Example: Title?'') = ''Example Title''"
    by (simp add: base_filename_def sanitize_defs)
  from raw_and_cleaned_paths_distinct [OF sample_extract, of "Some ''Example: Title?''"] b
    sample_extract
  show ?thesis by simp
qed

end
